theory Spec2Isabelle
  imports Main "HOL-Library.AList"
begin

section \<open>Pipeline steps of dtlpy: data model\<close>

text \<open>
  The two step classes of \<^verbatim>\<open>dtlpy/pipelines/steps\<close>,
  \<^verbatim>\<open>AnnotationsGetBatchStep\<close> and \<^verbatim>\<open>ItemsGetStep\<close>, read named
  keys of a shared dictionary, call one collaborator of the SDK and write the result
  back under the declared output names.

  Python values are modelled by the variants the steps can tell apart: the tuple test
  of \<^verbatim>\<open>isinstance(outputs, tuple)\<close>, the iteration of
  \<^verbatim>\<open>for item in items\<close>, and opaque entity handles (an Item, a Dataset).
\<close>

datatype pyval =
    PNone
  | PStr string
  | PInt int
  | PObj nat
  | PList "pyval list"
  | PTuple "pyval list"

text \<open>
  A Python \<^verbatim>\<open>dict\<close> keeps its keys in insertion order: assigning to a key that
  is present replaces the value in place, assigning to a new key appends it. This is
  \<^const>\<open>AList.update\<close> on an association list.
\<close>

type_synonym pydict = "(string \<times> pyval) list"

definition dict_has :: "pydict \<Rightarrow> string \<Rightarrow> bool" where
  \<comment> \<open>\<^verbatim>\<open>k in d\<close>\<close>
  "dict_has d k = (k \<in> set (map fst d))"

definition dict_get :: "pydict \<Rightarrow> string \<Rightarrow> pyval" where
  \<comment> \<open>\<^verbatim>\<open>d.get(k)\<close>: \<^verbatim>\<open>None\<close> when the key is absent\<close>
  "dict_get d k = (case map_of d k of None \<Rightarrow> PNone | Some v \<Rightarrow> v)"

definition dict_set :: "pydict \<Rightarrow> string \<Rightarrow> pyval \<Rightarrow> pydict" where
  \<comment> \<open>\<^verbatim>\<open>d[k] = v\<close>\<close>
  "dict_set d k v = AList.update k v d"

datatype exn =
    AssertionError string
  | ValueError string
  | KeyError string
  | IndexError string
  | TypeError string
  | AttributeError string
  | OtherError string

text \<open>
  The entries of \<^verbatim>\<open>self.inputs\<close> and \<^verbatim>\<open>self.outputs\<close>. The source
  reads the keys \<^verbatim>\<open>'name'\<close> and \<^verbatim>\<open>'from'\<close> of an input and the key
  \<^verbatim>\<open>'name'\<close> of an output; \<^verbatim>\<open>'by'\<close> and \<^verbatim>\<open>'type'\<close> are carried
  along.
\<close>

record input_spec =
  in_name :: string
  in_from :: string
  in_by :: string
  in_type :: string

record output_spec =
  out_name :: string
  out_type :: string

record step_dict =
  d_inputs :: "input_spec list"
  d_kwargs :: pydict
  d_args :: "pyval list"
  d_outputs :: "output_spec list"

record step =
  name :: string
  inputs :: "input_spec list"
  kwargs :: pydict
  args :: "pyval list"
  outputs :: "output_spec list"

datatype step_kind = AnnotationsGetBatchStep | ItemsGetStep

subsection \<open>Construction\<close>

definition AnnotationsGetBatchStep_init :: "step_dict option \<Rightarrow> step" where
  "AnnotationsGetBatchStep_init step_dict =
     (case step_dict of
        Some sd \<Rightarrow>
          \<lparr>name = ''AnnotationsGetBatch'', inputs = d_inputs sd, kwargs = d_kwargs sd,
           args = d_args sd, outputs = d_outputs sd\<rparr>
      | None \<Rightarrow>
          \<lparr>name = ''AnnotationsGetBatch'',
           inputs = [\<lparr>in_name = ''items'', in_from = ''items'', in_by = ''ref'',
                      in_type = ''object''\<rparr>],
           kwargs = [],
           args = [],
           outputs = [\<lparr>out_name = ''annotations'', out_type = ''list''\<rparr>]\<rparr>)"

definition ItemsGetStep_init :: "step_dict option \<Rightarrow> step" where
  "ItemsGetStep_init step_dict =
     (case step_dict of
        Some sd \<Rightarrow>
          \<lparr>name = ''ItemsGet'', inputs = d_inputs sd, kwargs = d_kwargs sd,
           args = d_args sd, outputs = d_outputs sd\<rparr>
      | None \<Rightarrow>
          \<lparr>name = ''ItemsGet'',
           inputs = [\<lparr>in_name = ''dataset'', in_from = ''dataset'', in_by = ''ref'',
                      in_type = ''object''\<rparr>,
                     \<lparr>in_name = ''item_id'', in_from = ''item_id'', in_by = ''ref'',
                      in_type = ''string''\<rparr>],
           kwargs = [],
           args = [],
           outputs = [\<lparr>out_name = ''item'', out_type = ''object''\<rparr>]\<rparr>)"

definition init :: "step_kind \<Rightarrow> step_dict option \<Rightarrow> step" where
  "init kind step_dict =
     (case kind of
        AnnotationsGetBatchStep \<Rightarrow> AnnotationsGetBatchStep_init step_dict
      | ItemsGetStep \<Rightarrow> ItemsGetStep_init step_dict)"

subsection \<open>Collaborators and the record of one execution\<close>

text \<open>
  The collaborator calls are outside the steps: \<^verbatim>\<open>item.annotations.list()\<close> and
  \<^verbatim>\<open>dataset.items.get(**kwargs)\<close>. A call names the operation, the object it is
  made on and the keyword arguments passed to it; a collaborator answers a call with a
  value or raises. One execution is recorded with the exception it ended with (if any),
  the step and the dictionary as they are afterwards, and the calls it made, in order.
\<close>

datatype operation = Annotations_list | Items_get

datatype call = Call operation pyval pydict

type_synonym collaborator = "call \<Rightarrow> exn + pyval"

record run =
  outcome :: "exn option"
  self_after :: step
  dict_after :: pydict
  calls :: "call list"

definition primary_name :: "step_kind \<Rightarrow> string" where
  "primary_name kind =
     (case kind of AnnotationsGetBatchStep \<Rightarrow> ''items'' | ItemsGetStep \<Rightarrow> ''dataset'')"

definition missing_input_msg :: string where
  "missing_input_msg = ''[ERROR] input argument for step is not in pipeline dictionary. arg: ''"

definition missing_primary_msg :: "string \<Rightarrow> string" where
  \<comment> \<open>\<^verbatim>\<open>'"items" is missing from context'\<close>, \<^verbatim>\<open>'"dataset" is missing from context'\<close>\<close>
  "missing_primary_msg p = [CHR 0x22] @ p @ [CHR 0x22] @ '' is missing from context''"

subsection \<open>The parts of \<^verbatim>\<open>execute\<close>\<close>

text \<open>The assertion loop: the first declared input whose source key is absent fails it.\<close>

fun check_inputs :: "input_spec list \<Rightarrow> pydict \<Rightarrow> exn option" where
  "check_inputs [] pipeline_dict = None"
| "check_inputs (input_arg # rest) pipeline_dict =
     (if dict_has pipeline_dict (in_from input_arg) then check_inputs rest pipeline_dict
      else Some (AssertionError (missing_input_msg @ in_from input_arg)))"

definition primary_from :: "string \<Rightarrow> input_spec list \<Rightarrow> string list" where
  \<comment> \<open>\<^verbatim>\<open>[input_arg['from'] for input_arg in self.inputs if input_arg['name'] == p]\<close>\<close>
  "primary_from p ins = map in_from (filter (\<lambda>input_arg. in_name input_arg = p) ins)"

text \<open>
  The loop over the remaining inputs. \<^verbatim>\<open>kwargs\<close> is \<^verbatim>\<open>self.kwargs\<close> itself
  (no copy), so every assignment is an assignment to the step's field;
  \<^verbatim>\<open>pipeline_dict[k]\<close> raises \<^verbatim>\<open>KeyError\<close> on an absent key.
\<close>

fun collect_kwargs :: "string \<Rightarrow> pydict \<Rightarrow> input_spec list \<Rightarrow> pydict \<Rightarrow> exn option \<times> pydict" where
  "collect_kwargs p pipeline_dict [] kw = (None, kw)"
| "collect_kwargs p pipeline_dict (input_arg # rest) kw =
     (if in_name input_arg = p then collect_kwargs p pipeline_dict rest kw
      else (case map_of pipeline_dict (in_from input_arg) of
              None \<Rightarrow> (Some (KeyError (in_from input_arg)), kw)
            | Some v \<Rightarrow> collect_kwargs p pipeline_dict rest (dict_set kw (in_name input_arg) v)))"

definition raised :: "exn \<Rightarrow> step \<Rightarrow> pydict \<Rightarrow> call list \<Rightarrow> run" where
  "raised e self pipeline_dict cs =
     \<lparr>outcome = Some e, self_after = self, dict_after = pipeline_dict, calls = cs\<rparr>"

text \<open>
  Iteration over a value: lists and tuples give their elements, a string its characters.
  Any other value raises \<^verbatim>\<open>TypeError\<close> with the name of its type in the message,
  \<^verbatim>\<open>'NoneType' object is not iterable\<close>. The class of an opaque handle is not
  part of the model; its message carries the name \<^verbatim>\<open>object\<close>.
\<close>

definition not_iterable_msg :: "string \<Rightarrow> string" where
  "not_iterable_msg type_name = [CHR 0x27] @ type_name @ [CHR 0x27] @ '' object is not iterable''"

fun iterate :: "pyval \<Rightarrow> exn + pyval list" where
  "iterate (PList xs) = Inr xs"
| "iterate (PTuple xs) = Inr xs"
| "iterate (PStr s) = Inr (map (\<lambda>c. PStr [c]) s)"
| "iterate PNone = Inl (TypeError (not_iterable_msg ''NoneType''))"
| "iterate (PInt n) = Inl (TypeError (not_iterable_msg ''int''))"
| "iterate (PObj h) = Inl (TypeError (not_iterable_msg ''object''))"

text \<open>
  \<^verbatim>\<open>for item in items: outputs.append(item.annotations.list())\<close>: the call takes no
  argument.
\<close>

fun list_annotations ::
  "collaborator \<Rightarrow> pyval list \<Rightarrow> pyval list \<Rightarrow> call list \<Rightarrow> (exn + pyval list) \<times> call list" where
  "list_annotations c [] acc cs = (Inr acc, cs)"
| "list_annotations c (item # rest) acc cs =
     (case c (Call Annotations_list item []) of
        Inl e \<Rightarrow> (Inl e, cs @ [Call Annotations_list item []])
      | Inr v \<Rightarrow> list_annotations c rest (acc @ [v]) (cs @ [Call Annotations_list item []]))"

fun is_tuple :: "pyval \<Rightarrow> bool" where
  "is_tuple (PTuple xs) = True"
| "is_tuple v = False"

fun as_tuple :: "pyval \<Rightarrow> pyval list" where
  \<comment> \<open>\<^verbatim>\<open>if not isinstance(outputs, tuple): outputs = (outputs,)\<close>\<close>
  "as_tuple (PTuple xs) = xs"
| "as_tuple v = [v]"

text \<open>
  \<^verbatim>\<open>for i_output, output_arg in enumerate(self.outputs):
      pipeline_dict[output_arg['name']] = outputs[i_output]\<close>
  Indexing the tuple past its end raises \<^verbatim>\<open>IndexError\<close>; the assignments made
  before stay.
\<close>

fun write_outputs :: "nat \<Rightarrow> output_spec list \<Rightarrow> pyval list \<Rightarrow> pydict \<Rightarrow> exn option \<times> pydict" where
  "write_outputs i_output [] tup pipeline_dict = (None, pipeline_dict)"
| "write_outputs i_output (output_arg # rest) tup pipeline_dict =
     (if i_output < length tup
      then write_outputs (Suc i_output) rest tup
             (dict_set pipeline_dict (out_name output_arg) (tup ! i_output))
      else (Some (IndexError ''tuple index out of range''), pipeline_dict))"

subsection \<open>\<^verbatim>\<open>execute\<close> of the two classes\<close>

text \<open>
  The two methods, statement by statement. Assertions are taken as enabled. The call
  \<^verbatim>\<open>self.logger.exception(msg)\<close> before the \<^verbatim>\<open>ValueError\<close> writes to the log
  only and is left out. An exception ends the run with the step and the dictionary as
  the statements before it left them.
\<close>

definition AnnotationsGetBatchStep_execute :: "collaborator \<Rightarrow> step \<Rightarrow> pydict \<Rightarrow> run" where
  "AnnotationsGetBatchStep_execute c self pipeline_dict =
     (case check_inputs (inputs self) pipeline_dict of
        Some e \<Rightarrow> raised e self pipeline_dict []
      | None \<Rightarrow>
          let items_from = primary_from ''items'' (inputs self) in
          if length items_from \<noteq> 1
          then raised (ValueError (missing_primary_msg ''items'')) self pipeline_dict []
          else
            let items = dict_get pipeline_dict (items_from ! 0) in
            (case collect_kwargs ''items'' pipeline_dict (inputs self) (kwargs self) of
               (Some e, kw) \<Rightarrow> raised e (self\<lparr>kwargs := kw\<rparr>) pipeline_dict []
             | (None, kw) \<Rightarrow>
                 (case iterate items of
                    Inl e \<Rightarrow> raised e (self\<lparr>kwargs := kw\<rparr>) pipeline_dict []
                  | Inr its \<Rightarrow>
                      (case list_annotations c its [] [] of
                         (Inl e, cs) \<Rightarrow> raised e (self\<lparr>kwargs := kw\<rparr>) pipeline_dict cs
                       | (Inr outs, cs) \<Rightarrow>
                           (case write_outputs 0 (outputs self) (as_tuple (PList outs))
                                   pipeline_dict of
                              (res, d') \<Rightarrow>
                                \<lparr>outcome = res, self_after = self\<lparr>kwargs := kw\<rparr>,
                                 dict_after = d', calls = cs\<rparr>)))))"

definition ItemsGetStep_execute :: "collaborator \<Rightarrow> step \<Rightarrow> pydict \<Rightarrow> run" where
  "ItemsGetStep_execute c self pipeline_dict =
     (case check_inputs (inputs self) pipeline_dict of
        Some e \<Rightarrow> raised e self pipeline_dict []
      | None \<Rightarrow>
          let dataset_from = primary_from ''dataset'' (inputs self) in
          if length dataset_from \<noteq> 1
          then raised (ValueError (missing_primary_msg ''dataset'')) self pipeline_dict []
          else
            let dataset = dict_get pipeline_dict (dataset_from ! 0) in
            (case collect_kwargs ''dataset'' pipeline_dict (inputs self) (kwargs self) of
               (Some e, kw) \<Rightarrow> raised e (self\<lparr>kwargs := kw\<rparr>) pipeline_dict []
             | (None, kw) \<Rightarrow>
                 (case c (Call Items_get dataset kw) of
                    Inl e \<Rightarrow>
                      raised e (self\<lparr>kwargs := kw\<rparr>) pipeline_dict [Call Items_get dataset kw]
                  | Inr v \<Rightarrow>
                      (case write_outputs 0 (outputs self) (as_tuple v) pipeline_dict of
                         (res, d') \<Rightarrow>
                           \<lparr>outcome = res, self_after = self\<lparr>kwargs := kw\<rparr>,
                            dict_after = d', calls = [Call Items_get dataset kw]\<rparr>))))"

definition execute :: "collaborator \<Rightarrow> step_kind \<Rightarrow> step \<Rightarrow> pydict \<Rightarrow> run" where
  "execute c kind self pipeline_dict =
     (case kind of
        AnnotationsGetBatchStep \<Rightarrow> AnnotationsGetBatchStep_execute c self pipeline_dict
      | ItemsGetStep \<Rightarrow> ItemsGetStep_execute c self pipeline_dict)"

subsection \<open>The phases shared by both classes\<close>

text \<open>
  The lines between collecting the keyword arguments and saving the outputs (the part
  under \<^verbatim>\<open># Run step\<close>) are the only ones in which the two classes differ, apart
  from the reserved name. \<open>invoke\<close> is that part: the value computed and the calls
  made.
\<close>

definition invoke :: "collaborator \<Rightarrow> step_kind \<Rightarrow> pyval \<Rightarrow> pydict \<Rightarrow> (exn + pyval) \<times> call list" where
  "invoke c kind obj kw =
     (case kind of
        AnnotationsGetBatchStep \<Rightarrow>
          (case iterate obj of
             Inl e \<Rightarrow> (Inl e, [])
           | Inr its \<Rightarrow>
               (case list_annotations c its [] [] of
                  (Inl e, cs) \<Rightarrow> (Inl e, cs)
                | (Inr outs, cs) \<Rightarrow> (Inr (PList outs), cs)))
      | ItemsGetStep \<Rightarrow> (c (Call Items_get obj kw), [Call Items_get obj kw]))"

definition assign_all :: "(string \<times> pyval) list \<Rightarrow> pydict \<Rightarrow> pydict" where
  \<comment> \<open>the assignments \<^verbatim>\<open>d[k] = v\<close> for the pairs of a list, made from left to right\<close>
  "assign_all ps d = fold (\<lambda>(k, v) acc. dict_set acc k v) ps d"

text \<open>
  The assignments \<^verbatim>\<open>kwargs[input_arg['name']] = pipeline_dict[input_arg['from']]\<close>
  that the loop over the inputs makes when every source key is present.
\<close>

definition bindings :: "string \<Rightarrow> pydict \<Rightarrow> input_spec list \<Rightarrow> (string \<times> pyval) list" where
  "bindings p pipeline_dict ins =
     map (\<lambda>input_arg. (in_name input_arg, dict_get pipeline_dict (in_from input_arg)))
       (filter (\<lambda>input_arg. in_name input_arg \<noteq> p) ins)"

subsection \<open>\<^verbatim>\<open>get_arguments\<close>\<close>

text \<open>
  \<^verbatim>\<open>inspect.signature(f).parameters\<close> is the list of the parameters of \<open>f\<close>, each
  with its default or none (\<^verbatim>\<open>inspect.Parameter.empty\<close>). The classes
  \<^verbatim>\<open>repositories.Annotations\<close> and \<^verbatim>\<open>repositories.Items\<close> are not part of
  the sources at hand, so the signatures of their methods are a parameter.
\<close>

type_synonym signature = "(string \<times> pyval option) list"

record repositories =
  Annotations_get_signature :: signature
  Annotations_list_signature :: signature
  Items_get_signature :: signature

definition f_callargs :: "signature \<Rightarrow> pydict" where
  \<comment> \<open>\<^verbatim>\<open>{k: v.default for k, v in signature.parameters.items()
        if v.default is not inspect.Parameter.empty}\<close>\<close>
  "f_callargs sig = concat (map (\<lambda>(k, dflt). case dflt of None \<Rightarrow> [] | Some v \<Rightarrow> [(k, v)]) sig)"

definition AnnotationsGetBatchStep_get_arguments :: "repositories \<Rightarrow> pydict" where
  "AnnotationsGetBatchStep_get_arguments repos = f_callargs (Annotations_get_signature repos)"

definition ItemsGetStep_get_arguments :: "repositories \<Rightarrow> pydict" where
  "ItemsGetStep_get_arguments repos = f_callargs (Items_get_signature repos)"

definition get_arguments :: "step_kind \<Rightarrow> repositories \<Rightarrow> pydict" where
  "get_arguments kind repos =
     (case kind of
        AnnotationsGetBatchStep \<Rightarrow> AnnotationsGetBatchStep_get_arguments repos
      | ItemsGetStep \<Rightarrow> ItemsGetStep_get_arguments repos)"

definition signature_of :: "repositories \<Rightarrow> operation \<Rightarrow> signature" where
  "signature_of repos opn =
     (case opn of
        Annotations_list \<Rightarrow> Annotations_list_signature repos
      | Items_get \<Rightarrow> Items_get_signature repos)"

fun operation_of :: "call \<Rightarrow> operation" where
  "operation_of (Call opn obj kw) = opn"

fun kwargs_of :: "call \<Rightarrow> pydict" where
  "kwargs_of (Call opn obj kw) = kw"

subsection \<open>Example steps and contexts\<close>

text \<open>A step built from a descriptor that names two inputs \<^verbatim>\<open>'dataset'\<close>.\<close>

definition two_datasets_step :: step where
  "two_datasets_step =
     init ItemsGetStep
       (Some \<lparr>d_inputs = [\<lparr>in_name = ''dataset'', in_from = ''train'', in_by = ''ref'',
                           in_type = ''object''\<rparr>,
                          \<lparr>in_name = ''dataset'', in_from = ''test'', in_by = ''ref'',
                           in_type = ''object''\<rparr>],
              d_kwargs = [], d_args = [],
              d_outputs = [\<lparr>out_name = ''item'', out_type = ''object''\<rparr>]\<rparr>)"

definition two_datasets_dict :: pydict where
  "two_datasets_dict = [(''train'', PObj 1), (''test'', PObj 2)]"

text \<open>The context of the scenario of \<^verbatim>\<open>ItemsGetStep\<close>: a dataset and an item id.\<close>

definition item_dict :: pydict where
  "item_dict = [(''dataset'', PObj 0), (''item_id'', PStr ''abc'')]"

text \<open>A step built from a descriptor that declares two outputs.\<close>

definition two_outputs_step :: step where
  "two_outputs_step =
     init ItemsGetStep
       (Some \<lparr>d_inputs = [\<lparr>in_name = ''dataset'', in_from = ''dataset'', in_by = ''ref'',
                           in_type = ''object''\<rparr>,
                          \<lparr>in_name = ''item_id'', in_from = ''item_id'', in_by = ''ref'',
                           in_type = ''string''\<rparr>],
              d_kwargs = [], d_args = [],
              d_outputs = [\<lparr>out_name = ''item'', out_type = ''object''\<rparr>,
                           \<lparr>out_name = ''extra'', out_type = ''object''\<rparr>]\<rparr>)"

text \<open>A collaborator that answers every call with the same value.\<close>

definition answer_with :: "pyval \<Rightarrow> collaborator" where
  "answer_with v cl = Inr v"

text \<open>
  A step \<^verbatim>\<open>AnnotationsGetBatchStep\<close> built from a descriptor that declares, besides
  the items, an input \<^verbatim>\<open>'filters'\<close> read from the key \<^verbatim>\<open>'my_filters'\<close>, and a
  context for it.
\<close>

definition filtered_step :: step where
  "filtered_step =
     init AnnotationsGetBatchStep
       (Some \<lparr>d_inputs = [\<lparr>in_name = ''items'', in_from = ''items'', in_by = ''ref'',
                           in_type = ''object''\<rparr>,
                          \<lparr>in_name = ''filters'', in_from = ''my_filters'', in_by = ''ref'',
                           in_type = ''object''\<rparr>],
              d_kwargs = [], d_args = [],
              d_outputs = [\<lparr>out_name = ''annotations'', out_type = ''list''\<rparr>]\<rparr>)"

definition filtered_dict :: pydict where
  "filtered_dict = [(''items'', PList [PObj 1]), (''my_filters'', PObj 5)]"

text \<open>
  Signatures for the methods of the repositories, as an example: \<^verbatim>\<open>get(self,
  annotation_id)\<close> and \<^verbatim>\<open>list(self, filters=None, page_offset=None,
  page_size=None)\<close> for the annotations, \<^verbatim>\<open>get(self, filepath=None,
  item_id=None)\<close> for the items.
\<close>

definition example_repositories :: repositories where
  "example_repositories =
     \<lparr>Annotations_get_signature = [(''self'', None), (''annotation_id'', None)],
      Annotations_list_signature =
        [(''self'', None), (''filters'', Some PNone), (''page_offset'', Some PNone),
         (''page_size'', Some PNone)],
      Items_get_signature =
        [(''self'', None), (''filepath'', Some PNone), (''item_id'', Some PNone)]\<rparr>"





text \<open>The keys of a dictionary that an earlier state of it did not have, in order.\<close>

definition new_keys :: "pydict \<Rightarrow> pydict \<Rightarrow> string list" where
  "new_keys before after = filter (\<lambda>k. \<not> dict_has before k) (map fst after)"

text \<open>
  Two steps \<^verbatim>\<open>ItemsGetStep\<close> built from descriptors: one declares two outputs of
  the same name, the other declares the output \<^verbatim>\<open>'dataset'\<close>, which is also the key
  its primary input is read from.
\<close>

definition twice_named_step :: step where
  "twice_named_step =
     init ItemsGetStep
       (Some \<lparr>d_inputs = [\<lparr>in_name = ''dataset'', in_from = ''dataset'', in_by = ''ref'',
                           in_type = ''object''\<rparr>,
                          \<lparr>in_name = ''item_id'', in_from = ''item_id'', in_by = ''ref'',
                           in_type = ''string''\<rparr>],
              d_kwargs = [], d_args = [],
              d_outputs = [\<lparr>out_name = ''a'', out_type = ''object''\<rparr>,
                           \<lparr>out_name = ''a'', out_type = ''object''\<rparr>]\<rparr>)"

definition overwriting_step :: step where
  "overwriting_step =
     init ItemsGetStep
       (Some \<lparr>d_inputs = [\<lparr>in_name = ''dataset'', in_from = ''dataset'', in_by = ''ref'',
                           in_type = ''object''\<rparr>,
                          \<lparr>in_name = ''item_id'', in_from = ''item_id'', in_by = ''ref'',
                           in_type = ''string''\<rparr>],
              d_kwargs = [], d_args = [],
              d_outputs = [\<lparr>out_name = ''dataset'', out_type = ''object''\<rparr>]\<rparr>)"

section \<open>Properties\<close>

subsection \<open>Auxiliary facts\<close>

lemma dict_has_map_of: "dict_has d k \<longleftrightarrow> map_of d k \<noteq> None"
  by (simp add: dict_has_def map_of_eq_None_iff)

lemma check_inputs_None_iff:
  "check_inputs ins d = None \<longleftrightarrow> (\<forall>i\<in>set ins. dict_has d (in_from i))"
  by (induction ins) auto

lemma check_inputs_Some:
  "check_inputs ins d = Some e \<Longrightarrow>
     \<exists>k. k \<in> in_from ` set ins \<and> \<not> dict_has d k \<and> e = AssertionError (missing_input_msg @ k)"
  by (induction ins) (auto split: if_splits)

lemma collect_kwargs_ok:
  "check_inputs ins d = None \<Longrightarrow> fst (collect_kwargs p d ins kw) = None"
  by (induction ins arbitrary: kw) (auto simp: dict_has_map_of split: if_splits)

text \<open>Both classes run the same phases; only the reserved name and the call differ.\<close>

lemma execute_phases:
  "execute c kind self d =
     (case check_inputs (inputs self) d of
        Some e \<Rightarrow> raised e self d []
      | None \<Rightarrow>
          if length (primary_from (primary_name kind) (inputs self)) \<noteq> 1
          then raised (ValueError (missing_primary_msg (primary_name kind))) self d []
          else
            (case collect_kwargs (primary_name kind) d (inputs self) (kwargs self) of
               (Some e, kw) \<Rightarrow> raised e (self\<lparr>kwargs := kw\<rparr>) d []
             | (None, kw) \<Rightarrow>
                 (case invoke c kind
                         (dict_get d (primary_from (primary_name kind) (inputs self) ! 0)) kw of
                    (Inl e, cs) \<Rightarrow> raised e (self\<lparr>kwargs := kw\<rparr>) d cs
                  | (Inr v, cs) \<Rightarrow>
                      (case write_outputs 0 (outputs self) (as_tuple v) d of
                         (res, d') \<Rightarrow>
                           \<lparr>outcome = res, self_after = self\<lparr>kwargs := kw\<rparr>,
                            dict_after = d', calls = cs\<rparr>))))"
  by (cases kind)
    (auto simp: execute_def AnnotationsGetBatchStep_execute_def ItemsGetStep_execute_def
       invoke_def primary_name_def Let_def
       split: option.splits prod.splits sum.splits)

subsection \<open>Missing inputs\<close>

text \<open>
  Claim C1. For every step of either class, however it was built, and every context: if
  the source key (\<^verbatim>\<open>'from'\<close>) of some declared input is absent from the context,
  \<^verbatim>\<open>execute\<close> fails with the assertion error whose message ends with a declared
  source key that is absent, the context is exactly what it was, the step is unchanged
  and no collaborator was called.
\<close>

theorem missing_input_fails:
  assumes "\<exists>i\<in>set (inputs self). \<not> dict_has pipeline_dict (in_from i)"
  shows "\<exists>k. k \<in> in_from ` set (inputs self) \<and> \<not> dict_has pipeline_dict k \<and>
           outcome (execute c kind self pipeline_dict)
             = Some (AssertionError (missing_input_msg @ k)) \<and>
           dict_after (execute c kind self pipeline_dict) = pipeline_dict \<and>
           self_after (execute c kind self pipeline_dict) = self \<and>
           calls (execute c kind self pipeline_dict) = []"
proof -
  from assms have "check_inputs (inputs self) pipeline_dict \<noteq> None"
    by (simp add: check_inputs_None_iff)
  then obtain e where e: "check_inputs (inputs self) pipeline_dict = Some e"
    by blast
  from check_inputs_Some [OF e] obtain k where
    k: "k \<in> in_from ` set (inputs self)" "\<not> dict_has pipeline_dict k"
       "e = AssertionError (missing_input_msg @ k)"
    by blast
  have "execute c kind self pipeline_dict = raised e self pipeline_dict []"
    by (simp add: execute_phases e)
  with k show ?thesis
    by (auto simp: raised_def)
qed

theorem missing_input_fails_witness:
  "(\<exists>i\<in>set (inputs (init ItemsGetStep None)).
      \<not> dict_has [(''item_id'', PStr ''abc'')] (in_from i)) \<and>
   (\<exists>k. k \<in> in_from ` set (inputs (init ItemsGetStep None)) \<and>
      \<not> dict_has [(''item_id'', PStr ''abc'')] k \<and>
      outcome (execute (\<lambda>cl. Inr PNone) ItemsGetStep (init ItemsGetStep None)
                 [(''item_id'', PStr ''abc'')])
        = Some (AssertionError (missing_input_msg @ k)) \<and>
      dict_after (execute (\<lambda>cl. Inr PNone) ItemsGetStep (init ItemsGetStep None)
                 [(''item_id'', PStr ''abc'')]) = [(''item_id'', PStr ''abc'')] \<and>
      self_after (execute (\<lambda>cl. Inr PNone) ItemsGetStep (init ItemsGetStep None)
                 [(''item_id'', PStr ''abc'')]) = init ItemsGetStep None \<and>
      calls (execute (\<lambda>cl. Inr PNone) ItemsGetStep (init ItemsGetStep None)
                 [(''item_id'', PStr ''abc'')]) = [])"
proof -
  have h: "\<exists>i\<in>set (inputs (init ItemsGetStep None)).
             \<not> dict_has [(''item_id'', PStr ''abc'')] (in_from i)"
    by (simp add: init_def ItemsGetStep_init_def dict_has_def)
  from missing_input_fails [OF h, of "\<lambda>cl. Inr PNone" ItemsGetStep] h
  show ?thesis by blast
qed

subsection \<open>No primary input, or more than one\<close>

text \<open>
  Claim C3. For every step whose declared source keys are all in the context and whose
  declared inputs hold no entry, or two or more entries, named as the reserved primary
  object of its class (\<^verbatim>\<open>'items'\<close>, \<^verbatim>\<open>'dataset'\<close>), \<^verbatim>\<open>execute\<close> raises
  \<^verbatim>\<open>ValueError\<close>; no collaborator has been called, and the context and the step are
  what they were.
\<close>

theorem ambiguous_primary_fails:
  assumes "\<forall>i\<in>set (inputs self). dict_has pipeline_dict (in_from i)"
      and "length (filter (\<lambda>i. in_name i = primary_name kind) (inputs self)) \<noteq> 1"
  shows "outcome (execute c kind self pipeline_dict)
           = Some (ValueError (missing_primary_msg (primary_name kind))) \<and>
         calls (execute c kind self pipeline_dict) = [] \<and>
         dict_after (execute c kind self pipeline_dict) = pipeline_dict \<and>
         self_after (execute c kind self pipeline_dict) = self"
proof -
  from assms(1) have "check_inputs (inputs self) pipeline_dict = None"
    by (simp add: check_inputs_None_iff)
  moreover from assms(2) have "length (primary_from (primary_name kind) (inputs self)) \<noteq> 1"
    by (simp add: primary_from_def)
  ultimately have "execute c kind self pipeline_dict
      = raised (ValueError (missing_primary_msg (primary_name kind))) self pipeline_dict []"
    by (simp add: execute_phases)
  then show ?thesis
    by (simp add: raised_def)
qed

theorem ambiguous_primary_fails_witness:
  "map in_from (inputs two_datasets_step) = [''train'', ''test''] \<and>
   dict_has two_datasets_dict ''train'' \<and> dict_has two_datasets_dict ''test'' \<and>
   length (filter (\<lambda>i. in_name i = primary_name ItemsGetStep) (inputs two_datasets_step)) = 2 \<and>
   outcome (execute (\<lambda>cl. Inr PNone) ItemsGetStep two_datasets_step two_datasets_dict)
     = Some (ValueError (missing_primary_msg ''dataset'')) \<and>
   calls (execute (\<lambda>cl. Inr PNone) ItemsGetStep two_datasets_step two_datasets_dict) = [] \<and>
   dict_after (execute (\<lambda>cl. Inr PNone) ItemsGetStep two_datasets_step two_datasets_dict)
     = two_datasets_dict \<and>
   self_after (execute (\<lambda>cl. Inr PNone) ItemsGetStep two_datasets_step two_datasets_dict)
     = two_datasets_step"
proof -
  have h1: "\<forall>i\<in>set (inputs two_datasets_step). dict_has two_datasets_dict (in_from i)"
    by (simp add: two_datasets_step_def two_datasets_dict_def init_def ItemsGetStep_init_def
          dict_has_def)
  have h2: "length (filter (\<lambda>i. in_name i = primary_name ItemsGetStep)
                      (inputs two_datasets_step)) = 2"
    by (simp add: two_datasets_step_def init_def ItemsGetStep_init_def primary_name_def)
  then have h3: "length (filter (\<lambda>i. in_name i = primary_name ItemsGetStep)
                      (inputs two_datasets_step)) \<noteq> 1"
    by simp
  have h4: "map in_from (inputs two_datasets_step) = [''train'', ''test'']"
    by (simp add: two_datasets_step_def init_def ItemsGetStep_init_def)
  have h5: "dict_has two_datasets_dict ''train'' \<and> dict_has two_datasets_dict ''test''"
    by (simp add: two_datasets_dict_def dict_has_def)
  from ambiguous_primary_fails [OF h1 h3, of "\<lambda>cl. Inr PNone"] h2 h4 h5
  show ?thesis by (simp add: primary_name_def)
qed

subsection \<open>Assignments to a dictionary\<close>

text \<open>
  What a run of assignments does to the keys and the values of a dictionary, and that
  making the same assignments a second time changes nothing.
\<close>

lemma assign_all_Nil: "assign_all [] d = d"
  by (simp add: assign_all_def)

lemma assign_all_Cons: "assign_all ((k, v) # ps) d = assign_all ps (dict_set d k v)"
  by (simp add: assign_all_def)


lemma write_outputs_snd:
  "snd (write_outputs i outs tup d) = assign_all (zip (map out_name outs) (drop i tup)) d"
proof (induction outs arbitrary: i d)
  case Nil
  show ?case by (simp add: assign_all_Nil)
next
  case (Cons out rest)
  show ?case
  proof (cases "i < length tup")
    case True
    then have "drop i tup = tup ! i # drop (Suc i) tup"
      by (simp add: Cons_nth_drop_Suc)
    with True Cons.IH show ?thesis
      by (simp add: assign_all_Cons)
  next
    case False
    then show ?thesis by (simp add: assign_all_Nil)
  qed
qed

lemma write_outputs_fst:
  "i \<le> length tup \<Longrightarrow>
   fst (write_outputs i outs tup d) =
     (if i + length outs \<le> length tup then None
      else Some (IndexError ''tuple index out of range''))"
  by (induction outs arbitrary: i d) auto

lemma dict_set_keys: "fst ` set (dict_set d k v) = insert k (fst ` set d)"
  using dom_update [of k v d] by (simp add: dict_set_def)

lemma assign_all_keys: "fst ` set (assign_all ps d) = fst ` set d \<union> fst ` set ps"
proof (induction ps arbitrary: d)
  case Nil
  show ?case by (simp add: assign_all_Nil)
next
  case (Cons p ps)
  obtain k v where p: "p = (k, v)" by (cases p)
  have "fst ` set (assign_all (p # ps) d) = fst ` set (dict_set d k v) \<union> fst ` set ps"
    by (simp only: p assign_all_Cons Cons.IH)
  then show ?case
    by (simp add: p dict_set_keys)
qed

lemma map_of_dict_set: "map_of (dict_set d k v) = (map_of d)(k \<mapsto> v)"
  by (simp add: dict_set_def update_conv')

lemma assign_all_frame: "k \<notin> fst ` set ps \<Longrightarrow> map_of (assign_all ps d) k = map_of d k"
  by (induction ps arbitrary: d) (auto simp: assign_all_Nil assign_all_Cons map_of_dict_set)

lemma dict_set_fresh: "k \<notin> fst ` set d \<Longrightarrow> dict_set d k v = d @ [(k, v)]"
  by (induction d) (auto simp: dict_set_def)

lemma assign_all_fresh:
  "distinct (map fst ps) \<Longrightarrow> fst ` set ps \<inter> fst ` set d = {} \<Longrightarrow> assign_all ps d = d @ ps"
proof (induction ps arbitrary: d)
  case Nil
  show ?case by (simp add: assign_all_Nil)
next
  case (Cons p ps)
  obtain k v where p: "p = (k, v)" by (cases p)
  from Cons.prems p have fresh: "k \<notin> fst ` set d" by auto
  have "fst ` set ps \<inter> fst ` set (d @ [(k, v)]) = {}"
    using Cons.prems p by auto
  with Cons.IH [of "d @ [(k, v)]"] Cons.prems have "assign_all ps (d @ [(k, v)]) = (d @ [(k, v)]) @ ps"
    by simp
  with fresh p show ?case
    by (simp add: assign_all_Cons dict_set_fresh)
qed





subsection \<open>Saving the outputs\<close>

lemma execute_saves:
  assumes present: "\<forall>i\<in>set (inputs self). dict_has d (in_from i)"
      and one: "primary_from (primary_name kind) (inputs self) = [k]"
      and op: "invoke c kind (dict_get d k)
                 (snd (collect_kwargs (primary_name kind) d (inputs self) (kwargs self)))
               = (Inr v, cs)"
  shows "execute c kind self d =
           \<lparr>outcome = fst (write_outputs 0 (outputs self) (as_tuple v) d),
            self_after = self\<lparr>kwargs :=
              snd (collect_kwargs (primary_name kind) d (inputs self) (kwargs self))\<rparr>,
            dict_after = snd (write_outputs 0 (outputs self) (as_tuple v) d),
            calls = cs\<rparr>"
proof -
  from present have chk: "check_inputs (inputs self) d = None"
    by (simp add: check_inputs_None_iff)
  obtain kw where kw: "collect_kwargs (primary_name kind) d (inputs self) (kwargs self) = (None, kw)"
    using collect_kwargs_ok [OF chk, of "primary_name kind" "kwargs self"]
    by (cases "collect_kwargs (primary_name kind) d (inputs self) (kwargs self)") simp
  from op kw have op': "invoke c kind (dict_get d k) kw = (Inr v, cs)"
    by simp
  show ?thesis
    by (simp add: execute_phases chk one kw op' split: prod.splits)
qed

text \<open>
  Claim C10. A failure of the output arity is not atomic. For every step of either class
  with two or more declared outputs, in a context that holds every declared source key
  and with exactly one primary input, whose underlying operation returns a value that
  is not a tuple: \<^verbatim>\<open>execute\<close> raises \<^verbatim>\<open>IndexError\<close>, and it does so after the
  operation was invoked and after the first declared output key was written, so the
  context is left with that one assignment made.
\<close>

theorem arity_failure_not_atomic:
  assumes present: "\<forall>i\<in>set (inputs self). dict_has pipeline_dict (in_from i)"
      and one: "primary_from (primary_name kind) (inputs self) = [k]"
      and op: "invoke c kind (dict_get pipeline_dict k)
                 (snd (collect_kwargs (primary_name kind) pipeline_dict (inputs self)
                         (kwargs self)))
               = (Inr v, cs)"
      and single: "\<not> is_tuple v"
      and two: "2 \<le> length (outputs self)"
  shows "outcome (execute c kind self pipeline_dict)
           = Some (IndexError ''tuple index out of range'') \<and>
         dict_after (execute c kind self pipeline_dict)
           = dict_set pipeline_dict (out_name (outputs self ! 0)) v \<and>
         calls (execute c kind self pipeline_dict) = cs"
proof -
  from single have tup: "as_tuple v = [v]"
    by (cases v) simp_all
  from two obtain o1 o2 rest where outs: "outputs self = o1 # o2 # rest"
    by (cases "outputs self"; cases "tl (outputs self)") auto
  have "write_outputs 0 (outputs self) [v] pipeline_dict
          = (Some (IndexError ''tuple index out of range''),
             dict_set pipeline_dict (out_name o1) v)"
    by (simp add: outs)
  with execute_saves [OF present one op] tup outs show ?thesis
    by simp
qed

theorem arity_failure_not_atomic_witness:
  "outcome (execute (\<lambda>cl. Inr (PObj 7)) ItemsGetStep two_outputs_step item_dict)
     = Some (IndexError ''tuple index out of range'') \<and>
   dict_after (execute (\<lambda>cl. Inr (PObj 7)) ItemsGetStep two_outputs_step item_dict)
     = [(''dataset'', PObj 0), (''item_id'', PStr ''abc''), (''item'', PObj 7)] \<and>
   calls (execute (\<lambda>cl. Inr (PObj 7)) ItemsGetStep two_outputs_step item_dict)
     = [Call Items_get (PObj 0) [(''item_id'', PStr ''abc'')]]"
proof -
  have h1: "\<forall>i\<in>set (inputs two_outputs_step). dict_has item_dict (in_from i)"
    by (simp add: two_outputs_step_def item_dict_def init_def ItemsGetStep_init_def dict_has_def)
  have h2: "primary_from (primary_name ItemsGetStep) (inputs two_outputs_step) = [''dataset'']"
    by (simp add: two_outputs_step_def init_def ItemsGetStep_init_def primary_from_def
          primary_name_def)
  have h3: "invoke (\<lambda>cl. Inr (PObj 7)) ItemsGetStep (dict_get item_dict ''dataset'')
              (snd (collect_kwargs (primary_name ItemsGetStep) item_dict
                      (inputs two_outputs_step) (kwargs two_outputs_step)))
            = (Inr (PObj 7), [Call Items_get (PObj 0) [(''item_id'', PStr ''abc'')]])"
    by (simp add: two_outputs_step_def item_dict_def init_def ItemsGetStep_init_def
          primary_name_def invoke_def dict_get_def dict_set_def)
  have h4: "\<not> is_tuple (PObj 7)"
    by simp
  have h5: "2 \<le> length (outputs two_outputs_step)"
    by (simp add: two_outputs_step_def init_def ItemsGetStep_init_def)
  have "out_name (outputs two_outputs_step ! 0) = ''item''"
    by (simp add: two_outputs_step_def init_def ItemsGetStep_init_def)
  with arity_failure_not_atomic [OF h1 h2 h3 h4 h5] show ?thesis
    by (simp add: item_dict_def dict_set_def)
qed

subsection \<open>What a successful execution writes\<close>

lemma zip_take_length: "zip xs (take (length xs) ys) = zip xs ys"
proof (induction xs arbitrary: ys)
  case Nil
  show ?case by simp
next
  case (Cons x xs)
  show ?case by (cases ys) (simp_all add: Cons.IH)
qed

lemma execute_None_D:
  assumes "outcome (execute c kind self d) = None"
  obtains kw v cs where
    "check_inputs (inputs self) d = None"
    "length (primary_from (primary_name kind) (inputs self)) = 1"
    "collect_kwargs (primary_name kind) d (inputs self) (kwargs self) = (None, kw)"
    "invoke c kind (dict_get d (primary_from (primary_name kind) (inputs self) ! 0)) kw = (Inr v, cs)"
    "write_outputs 0 (outputs self) (as_tuple v) d = (None, dict_after (execute c kind self d))"
  using assms
  by (auto simp: execute_phases raised_def
      split: option.splits if_splits prod.splits sum.splits)

lemma new_keys_append:
  "fst ` set ps \<inter> fst ` set d = {} \<Longrightarrow> new_keys d (d @ ps) = map fst ps"
proof -
  assume apart: "fst ` set ps \<inter> fst ` set d = {}"
  have old: "filter (\<lambda>k. \<not> dict_has d k) (map fst d) = []"
    by (simp add: dict_has_def)
  have "\<forall>k\<in>set (map fst ps). \<not> dict_has d k"
    using apart by (auto simp: dict_has_def)
  then have "filter (\<lambda>k. \<not> dict_has d k) (map fst ps) = map fst ps"
    by (simp only: filter_True)
  with old show ?thesis
    by (simp add: new_keys_def)
qed

text \<open>When an execution succeeds.\<close>

lemma execute_succeeds:
  assumes "\<forall>i\<in>set (inputs self). dict_has d (in_from i)"
      and "primary_from (primary_name kind) (inputs self) = [k]"
      and "invoke c kind (dict_get d k)
             (snd (collect_kwargs (primary_name kind) d (inputs self) (kwargs self)))
           = (Inr v, cs)"
      and "length (outputs self) \<le> length (as_tuple v)"
  shows "outcome (execute c kind self d) = None"
  using execute_saves [OF assms(1-3)] assms(4)
    write_outputs_fst [of 0 "as_tuple v" "outputs self" d]
  by simp

text \<open>
  Claim C2, as amended. For every step with \<open>N\<close> declared outputs, an execution that
  succeeds makes exactly \<open>N\<close> assignments to the context, one for each declared
  output, under the declared name and in the order of declaration: the \<open>i\<close>-th
  assigns the \<open>i\<close>-th component of the result of the underlying operation when the
  result is a tuple, and the result itself when it is not (then \<open>N\<close> is at most one).
  The keys of the context afterwards are the keys it had and the declared output names,
  and no key other than a declared output name changes its value. When the declared
  names are pairwise distinct and absent from the context before the call, the keys
  added are exactly the \<open>N\<close> declared names, in declaration order, after the old
  entries. A declared name that is repeated or already in the context is overwritten,
  not added.
\<close>

theorem successful_execute_writes_outputs:
  assumes "outcome (execute c kind self pipeline_dict) = None"
  shows "\<exists>v vs.
           fst (invoke c kind
                  (dict_get pipeline_dict (primary_from (primary_name kind) (inputs self) ! 0))
                  (snd (collect_kwargs (primary_name kind) pipeline_dict (inputs self)
                          (kwargs self)))) = Inr v \<and>
           (\<forall>ts. v = PTuple ts \<longrightarrow> vs = take (length (outputs self)) ts) \<and>
           (\<not> is_tuple v \<longrightarrow> vs = take (length (outputs self)) [v]) \<and>
           length vs = length (outputs self) \<and>
           dict_after (execute c kind self pipeline_dict)
             = assign_all (zip (map out_name (outputs self)) vs) pipeline_dict \<and>
           fst ` set (dict_after (execute c kind self pipeline_dict))
             = fst ` set pipeline_dict \<union> out_name ` set (outputs self) \<and>
           (\<forall>k. k \<notin> out_name ` set (outputs self) \<longrightarrow>
                map_of (dict_after (execute c kind self pipeline_dict)) k
                  = map_of pipeline_dict k) \<and>
           (distinct (map out_name (outputs self)) \<and>
            out_name ` set (outputs self) \<inter> fst ` set pipeline_dict = {} \<longrightarrow>
              dict_after (execute c kind self pipeline_dict)
                = pipeline_dict @ zip (map out_name (outputs self)) vs \<and>
              new_keys pipeline_dict (dict_after (execute c kind self pipeline_dict))
                = map out_name (outputs self))"
proof -
  from execute_None_D [OF assms] obtain kw v cs where
    kw: "collect_kwargs (primary_name kind) pipeline_dict (inputs self) (kwargs self) = (None, kw)"
    and op: "invoke c kind
               (dict_get pipeline_dict (primary_from (primary_name kind) (inputs self) ! 0)) kw
             = (Inr v, cs)"
    and wr: "write_outputs 0 (outputs self) (as_tuple v) pipeline_dict
             = (None, dict_after (execute c kind self pipeline_dict))"
    by blast
  define vs where "vs = take (length (outputs self)) (as_tuple v)"
  define ps where "ps = zip (map out_name (outputs self)) vs"
  have tuple: "\<forall>ts. v = PTuple ts \<longrightarrow> vs = take (length (outputs self)) ts"
    by (simp add: vs_def)
  have single: "\<not> is_tuple v \<longrightarrow> vs = take (length (outputs self)) [v]"
    by (cases v) (simp_all add: vs_def)
  from wr write_outputs_fst [of 0 "as_tuple v" "outputs self" pipeline_dict]
  have enough: "length (outputs self) \<le> length (as_tuple v)"
    by (simp split: if_splits)
  then have len: "length vs = length (outputs self)"
    by (simp add: vs_def)
  have ps_eq: "ps = zip (map out_name (outputs self)) (as_tuple v)"
    unfolding ps_def vs_def
    using zip_take_length [of "map out_name (outputs self)" "as_tuple v"] by simp
  from wr write_outputs_snd [of 0 "outputs self" "as_tuple v" pipeline_dict]
  have after: "dict_after (execute c kind self pipeline_dict) = assign_all ps pipeline_dict"
    by (simp add: ps_eq)
  have map_fst_ps: "map fst ps = map out_name (outputs self)"
    using len by (simp add: ps_def)
  then have "set (map fst ps) = set (map out_name (outputs self))"
    by (simp only:)
  then have keys_ps: "fst ` set ps = out_name ` set (outputs self)"
    by (simp only: set_map)
  have 1: "fst (invoke c kind
                  (dict_get pipeline_dict (primary_from (primary_name kind) (inputs self) ! 0))
                  (snd (collect_kwargs (primary_name kind) pipeline_dict (inputs self)
                          (kwargs self)))) = Inr v"
    by (simp add: kw op)
  have 2: "fst ` set (dict_after (execute c kind self pipeline_dict))
             = fst ` set pipeline_dict \<union> out_name ` set (outputs self)"
    by (simp add: after assign_all_keys keys_ps)
  have 3: "\<forall>k. k \<notin> out_name ` set (outputs self) \<longrightarrow>
                map_of (dict_after (execute c kind self pipeline_dict)) k
                  = map_of pipeline_dict k"
    using assign_all_frame [of _ ps pipeline_dict] by (simp add: after keys_ps)
  have 4: "distinct (map out_name (outputs self)) \<and>
            out_name ` set (outputs self) \<inter> fst ` set pipeline_dict = {} \<longrightarrow>
              dict_after (execute c kind self pipeline_dict) = pipeline_dict @ ps \<and>
              new_keys pipeline_dict (dict_after (execute c kind self pipeline_dict))
                = map out_name (outputs self)"
  proof
    assume fresh: "distinct (map out_name (outputs self)) \<and>
            out_name ` set (outputs self) \<inter> fst ` set pipeline_dict = {}"
    then have app: "dict_after (execute c kind self pipeline_dict) = pipeline_dict @ ps"
      using assign_all_fresh [of ps pipeline_dict] by (simp add: after keys_ps map_fst_ps)
    from fresh have "fst ` set ps \<inter> fst ` set pipeline_dict = {}"
      by (simp add: keys_ps)
    from new_keys_append [OF this] app map_fst_ps
    show "dict_after (execute c kind self pipeline_dict) = pipeline_dict @ ps \<and>
          new_keys pipeline_dict (dict_after (execute c kind self pipeline_dict))
            = map out_name (outputs self)"
      by simp
  qed
  from 1 tuple single len after 2 3 4 show ?thesis
    unfolding ps_def by blast
qed

text \<open>
  The claim as stated fails where a declared output name is repeated or is in the
  context already. With two outputs both named \<^verbatim>\<open>'a'\<close> and a result of two
  components the execution succeeds and adds one key, which holds the second
  component. With the output \<^verbatim>\<open>'dataset'\<close> the execution succeeds and adds no key:
  it replaces the dataset.
\<close>

theorem added_keys_counterexample:
  "outcome (execute (answer_with (PTuple [PObj 7, PObj 8])) ItemsGetStep twice_named_step
              item_dict) = None \<and>
   map out_name (outputs twice_named_step) = [''a'', ''a''] \<and>
   dict_after (execute (answer_with (PTuple [PObj 7, PObj 8])) ItemsGetStep twice_named_step
                 item_dict)
     = [(''dataset'', PObj 0), (''item_id'', PStr ''abc''), (''a'', PObj 8)] \<and>
   new_keys item_dict
     (dict_after (execute (answer_with (PTuple [PObj 7, PObj 8])) ItemsGetStep
                    twice_named_step item_dict)) = [''a''] \<and>
   outcome (execute (answer_with (PObj 7)) ItemsGetStep overwriting_step item_dict) = None \<and>
   map out_name (outputs overwriting_step) = [''dataset''] \<and>
   dict_after (execute (answer_with (PObj 7)) ItemsGetStep overwriting_step item_dict)
     = [(''dataset'', PObj 7), (''item_id'', PStr ''abc'')] \<and>
   new_keys item_dict
     (dict_after (execute (answer_with (PObj 7)) ItemsGetStep overwriting_step item_dict))
     = []"
  by (simp add: execute_def ItemsGetStep_execute_def twice_named_step_def
        overwriting_step_def item_dict_def init_def ItemsGetStep_init_def dict_has_def
        primary_from_def dict_get_def dict_set_def answer_with_def new_keys_def)

theorem successful_execute_writes_outputs_witness:
  "outcome (execute (answer_with (PTuple [PObj 7, PObj 8])) ItemsGetStep two_outputs_step
              item_dict) = None \<and>
   dict_after (execute (answer_with (PTuple [PObj 7, PObj 8])) ItemsGetStep two_outputs_step
                 item_dict)
     = [(''dataset'', PObj 0), (''item_id'', PStr ''abc''), (''item'', PObj 7),
        (''extra'', PObj 8)] \<and>
   new_keys item_dict
     (dict_after (execute (answer_with (PTuple [PObj 7, PObj 8])) ItemsGetStep
                    two_outputs_step item_dict)) = [''item'', ''extra'']"
proof -
  let ?c = "answer_with (PTuple [PObj 7, PObj 8])"
  let ?s = "two_outputs_step"
  have h: "outcome (execute ?c ItemsGetStep ?s item_dict) = None"
    by (simp add: execute_def ItemsGetStep_execute_def two_outputs_step_def init_def
          ItemsGetStep_init_def item_dict_def dict_has_def primary_from_def dict_get_def
          dict_set_def answer_with_def)
  have outs: "map out_name (outputs ?s) = [''item'', ''extra'']"
    by (simp add: two_outputs_step_def init_def ItemsGetStep_init_def)
  have len: "length (outputs ?s) = 2"
    by (simp add: two_outputs_step_def init_def ItemsGetStep_init_def)
  have fresh: "distinct (map out_name (outputs ?s)) \<and>
               out_name ` set (outputs ?s) \<inter> fst ` set item_dict = {}"
    by (simp add: two_outputs_step_def init_def ItemsGetStep_init_def item_dict_def)
  have inv: "fst (invoke ?c ItemsGetStep
                (dict_get item_dict (primary_from (primary_name ItemsGetStep) (inputs ?s) ! 0))
                (snd (collect_kwargs (primary_name ItemsGetStep) item_dict (inputs ?s)
                        (kwargs ?s)))) = Inr (PTuple [PObj 7, PObj 8])"
    by (simp add: invoke_def answer_with_def)
  from successful_execute_writes_outputs [OF h] obtain v vs where
    v: "fst (invoke ?c ItemsGetStep
                (dict_get item_dict (primary_from (primary_name ItemsGetStep) (inputs ?s) ! 0))
                (snd (collect_kwargs (primary_name ItemsGetStep) item_dict (inputs ?s)
                        (kwargs ?s)))) = Inr v"
    and vs: "\<forall>ts. v = PTuple ts \<longrightarrow> vs = take (length (outputs ?s)) ts"
    and app: "distinct (map out_name (outputs ?s)) \<and>
              out_name ` set (outputs ?s) \<inter> fst ` set item_dict = {} \<longrightarrow>
              dict_after (execute ?c ItemsGetStep ?s item_dict)
                = item_dict @ zip (map out_name (outputs ?s)) vs \<and>
              new_keys item_dict (dict_after (execute ?c ItemsGetStep ?s item_dict))
                = map out_name (outputs ?s)"
    by blast
  from v inv have "v = PTuple [PObj 7, PObj 8]"
    by simp
  with vs len have "vs = [PObj 7, PObj 8]"
    by simp
  with app fresh outs h show ?thesis
    by (simp add: item_dict_def new_keys_def dict_has_def)
qed

subsection \<open>The scenarios\<close>

text \<open>
  Claim C4 (scenario A). In a context that maps \<^verbatim>\<open>'items'\<close> to the list
  \<^verbatim>\<open>[item1, item2]\<close>, where \<^verbatim>\<open>item1.annotations.list()\<close> returns \<open>a1\<close> and
  \<^verbatim>\<open>item2.annotations.list()\<close> returns \<open>a2\<close>, executing the
  \<^verbatim>\<open>AnnotationsGetBatchStep\<close> built with no descriptor succeeds, calls the two
  collaborators in that order and assigns the list \<^verbatim>\<open>[a1, a2]\<close> to the key
  \<^verbatim>\<open>'annotations'\<close>; nothing else in the context changes.
\<close>

theorem scenario_annotations_batch:
  assumes items: "map_of pipeline_dict ''items'' = Some (PList [item1, item2])"
      and list1: "c (Call Annotations_list item1 []) = Inr a1"
      and list2: "c (Call Annotations_list item2 []) = Inr a2"
  shows "outcome (execute c AnnotationsGetBatchStep (init AnnotationsGetBatchStep None)
                    pipeline_dict) = None \<and>
         dict_after (execute c AnnotationsGetBatchStep (init AnnotationsGetBatchStep None)
                       pipeline_dict)
           = dict_set pipeline_dict ''annotations'' (PList [a1, a2]) \<and>
         calls (execute c AnnotationsGetBatchStep (init AnnotationsGetBatchStep None)
                  pipeline_dict)
           = [Call Annotations_list item1 [], Call Annotations_list item2 []]"
proof -
  from items have has: "dict_has pipeline_dict ''items''"
    by (simp add: dict_has_map_of)
  from items have get: "dict_get pipeline_dict ''items'' = PList [item1, item2]"
    by (simp add: dict_get_def)
  show ?thesis
    by (simp add: execute_def AnnotationsGetBatchStep_execute_def init_def
          AnnotationsGetBatchStep_init_def primary_from_def has get list1 list2)
qed

theorem scenario_annotations_batch_witness:
  "execute (\<lambda>cl. case cl of Call opn obj kw \<Rightarrow> Inr (PList [obj]))
     AnnotationsGetBatchStep (init AnnotationsGetBatchStep None)
     [(''items'', PList [PObj 1, PObj 2])]
   = \<lparr>outcome = None,
      self_after = init AnnotationsGetBatchStep None,
      dict_after = [(''items'', PList [PObj 1, PObj 2]),
                    (''annotations'', PList [PList [PObj 1], PList [PObj 2]])],
      calls = [Call Annotations_list (PObj 1) [], Call Annotations_list (PObj 2) []]\<rparr>"
proof -
  let ?c = "\<lambda>cl. case cl of Call opn obj kw \<Rightarrow> (Inr (PList [obj]) :: exn + pyval)"
  let ?d = "[(''items'', PList [PObj 1, PObj 2])]"
  have h1: "map_of ?d ''items'' = Some (PList [PObj 1, PObj 2])"
    by simp
  have h2: "?c (Call Annotations_list (PObj 1) []) = Inr (PList [PObj 1])"
    by simp
  have h3: "?c (Call Annotations_list (PObj 2) []) = Inr (PList [PObj 2])"
    by simp
  have same: "self_after (execute ?c AnnotationsGetBatchStep (init AnnotationsGetBatchStep None) ?d)
                = init AnnotationsGetBatchStep None"
    by (simp add: execute_def AnnotationsGetBatchStep_execute_def init_def
          AnnotationsGetBatchStep_init_def primary_from_def dict_has_def dict_get_def)
  from scenario_annotations_batch [of ?d "PObj 1" "PObj 2" ?c, OF h1 h2 h3] same
  show ?thesis
    by (cases "execute ?c AnnotationsGetBatchStep (init AnnotationsGetBatchStep None) ?d")
       (simp add: dict_set_def)
qed

text \<open>
  Claim C5 (scenarios B and C). In a context that maps \<^verbatim>\<open>'dataset'\<close> to \<open>ds\<close> and
  \<^verbatim>\<open>'item_id'\<close> to \<^verbatim>\<open>"abc"\<close>, where \<^verbatim>\<open>ds.items.get(item_id="abc")\<close> returns a
  value \<open>v\<close> (an entity, not a tuple), executing the \<^verbatim>\<open>ItemsGetStep\<close> built with
  no descriptor succeeds, makes exactly that call and assigns \<open>v\<close> to the key
  \<^verbatim>\<open>'item'\<close>. In a context without the key \<^verbatim>\<open>'dataset'\<close> it fails with the
  assertion error that names \<^verbatim>\<open>dataset\<close>, and the context is unchanged.
\<close>

theorem scenario_items_get:
  "(map_of pipeline_dict ''dataset'' = Some ds \<and>
    map_of pipeline_dict ''item_id'' = Some (PStr ''abc'') \<and>
    c (Call Items_get ds [(''item_id'', PStr ''abc'')]) = Inr v \<and> \<not> is_tuple v \<longrightarrow>
      outcome (execute c ItemsGetStep (init ItemsGetStep None) pipeline_dict) = None \<and>
      dict_after (execute c ItemsGetStep (init ItemsGetStep None) pipeline_dict)
        = dict_set pipeline_dict ''item'' v \<and>
      calls (execute c ItemsGetStep (init ItemsGetStep None) pipeline_dict)
        = [Call Items_get ds [(''item_id'', PStr ''abc'')]]) \<and>
   (\<not> dict_has pipeline_dict ''dataset'' \<longrightarrow>
      outcome (execute c ItemsGetStep (init ItemsGetStep None) pipeline_dict)
        = Some (AssertionError (missing_input_msg @ ''dataset'')) \<and>
      dict_after (execute c ItemsGetStep (init ItemsGetStep None) pipeline_dict)
        = pipeline_dict \<and>
      calls (execute c ItemsGetStep (init ItemsGetStep None) pipeline_dict) = [])"
proof (intro conjI impI)
  assume a: "map_of pipeline_dict ''dataset'' = Some ds \<and>
    map_of pipeline_dict ''item_id'' = Some (PStr ''abc'') \<and>
    c (Call Items_get ds [(''item_id'', PStr ''abc'')]) = Inr v \<and> \<not> is_tuple v"
  then have has: "dict_has pipeline_dict ''dataset''" "dict_has pipeline_dict ''item_id''"
    by (simp_all add: dict_has_map_of)
  from a have get: "dict_get pipeline_dict ''dataset'' = ds"
    by (simp add: dict_get_def)
  from a have tup: "as_tuple v = [v]"
    by (cases v) simp_all
  have run: "execute c ItemsGetStep (init ItemsGetStep None) pipeline_dict =
          \<lparr>outcome = None,
           self_after = (init ItemsGetStep None)\<lparr>kwargs := [(''item_id'', PStr ''abc'')]\<rparr>,
           dict_after = dict_set pipeline_dict ''item'' v,
           calls = [Call Items_get ds [(''item_id'', PStr ''abc'')]]\<rparr>"
    using a
    by (simp add: execute_def ItemsGetStep_execute_def init_def ItemsGetStep_init_def
          primary_from_def has get tup dict_set_def [of "[]"])
  show "outcome (execute c ItemsGetStep (init ItemsGetStep None) pipeline_dict) = None"
    by (simp add: run)
  show "dict_after (execute c ItemsGetStep (init ItemsGetStep None) pipeline_dict)
        = dict_set pipeline_dict ''item'' v"
    by (simp add: run)
  show "calls (execute c ItemsGetStep (init ItemsGetStep None) pipeline_dict)
        = [Call Items_get ds [(''item_id'', PStr ''abc'')]]"
    by (simp add: run)
next
  assume b: "\<not> dict_has pipeline_dict ''dataset''"
  then have run: "execute c ItemsGetStep (init ItemsGetStep None) pipeline_dict =
          raised (AssertionError (missing_input_msg @ ''dataset'')) (init ItemsGetStep None)
            pipeline_dict []"
    by (simp add: execute_def ItemsGetStep_execute_def init_def ItemsGetStep_init_def)
  show "outcome (execute c ItemsGetStep (init ItemsGetStep None) pipeline_dict)
        = Some (AssertionError (missing_input_msg @ ''dataset''))"
    by (simp add: run raised_def)
  show "dict_after (execute c ItemsGetStep (init ItemsGetStep None) pipeline_dict)
        = pipeline_dict"
    by (simp add: run raised_def)
  show "calls (execute c ItemsGetStep (init ItemsGetStep None) pipeline_dict) = []"
    by (simp add: run raised_def)
qed

theorem scenario_items_get_witness:
  "outcome (execute (\<lambda>cl. Inr (PObj 7)) ItemsGetStep (init ItemsGetStep None) item_dict) = None \<and>
   dict_after (execute (\<lambda>cl. Inr (PObj 7)) ItemsGetStep (init ItemsGetStep None) item_dict)
     = [(''dataset'', PObj 0), (''item_id'', PStr ''abc''), (''item'', PObj 7)] \<and>
   calls (execute (\<lambda>cl. Inr (PObj 7)) ItemsGetStep (init ItemsGetStep None) item_dict)
     = [Call Items_get (PObj 0) [(''item_id'', PStr ''abc'')]] \<and>
   outcome (execute (\<lambda>cl. Inr (PObj 7)) ItemsGetStep (init ItemsGetStep None)
              [(''item_id'', PStr ''abc'')])
     = Some (AssertionError (missing_input_msg @ ''dataset'')) \<and>
   dict_after (execute (\<lambda>cl. Inr (PObj 7)) ItemsGetStep (init ItemsGetStep None)
                 [(''item_id'', PStr ''abc'')])
     = [(''item_id'', PStr ''abc'')]"
proof -
  let ?c = "\<lambda>cl::call. (Inr (PObj 7) :: exn + pyval)"
  have h1: "map_of item_dict ''dataset'' = Some (PObj 0) \<and>
            map_of item_dict ''item_id'' = Some (PStr ''abc'') \<and>
            ?c (Call Items_get (PObj 0) [(''item_id'', PStr ''abc'')]) = Inr (PObj 7) \<and>
            \<not> is_tuple (PObj 7)"
    by (simp add: item_dict_def)
  have h2: "\<not> dict_has [(''item_id'', PStr ''abc'')] ''dataset''"
    by (simp add: dict_has_def)
  from scenario_items_get [of item_dict "PObj 0" ?c "PObj 7"] h1
       scenario_items_get [of "[(''item_id'', PStr ''abc'')]" "PObj 0" ?c "PObj 7"] h2
  show ?thesis
    by (simp add: item_dict_def dict_set_def)
qed

subsection \<open>The step after an execution\<close>

lemma collect_kwargs_bindings:
  "check_inputs ins d = None \<Longrightarrow>
     collect_kwargs p d ins kw = (None, assign_all (bindings p d ins) kw)"
proof (induction ins arbitrary: kw)
  case Nil
  show ?case by (simp add: bindings_def assign_all_Nil)
next
  case (Cons i ins)
  from Cons.prems have here: "dict_has d (in_from i)" and rest: "check_inputs ins d = None"
    by (simp_all split: if_splits)
  from here obtain v where v: "map_of d (in_from i) = Some v"
    by (auto simp: dict_has_map_of)
  then have get: "dict_get d (in_from i) = v"
    by (simp add: dict_get_def)
  show ?case
  proof (cases "in_name i = p")
    case True
    with Cons.IH [OF rest] show ?thesis
      by (simp add: bindings_def)
  next
    case False
    with Cons.IH [OF rest, of "dict_set kw (in_name i) v"] v get show ?thesis
      by (simp add: bindings_def assign_all_Cons)
  qed
qed

text \<open>
  Claim C6, as amended. After \<^verbatim>\<open>execute\<close> returns or raises, the fields
  \<^verbatim>\<open>name\<close>, \<^verbatim>\<open>inputs\<close>, \<^verbatim>\<open>args\<close> and \<^verbatim>\<open>outputs\<close> of the step are what
  they were. The field \<^verbatim>\<open>kwargs\<close> is not: the local \<^verbatim>\<open>kwargs\<close> is the step's own
  dictionary, so when both checks pass the field afterwards is the old dictionary with
  \<^verbatim>\<open>kwargs[name] = context[from]\<close> assigned for every declared input other than the
  primary one, and it stays so after the call; when a check fails it is unchanged.
\<close>

theorem step_fields_after_execute:
  "name (self_after (execute c kind self pipeline_dict)) = name self \<and>
   inputs (self_after (execute c kind self pipeline_dict)) = inputs self \<and>
   args (self_after (execute c kind self pipeline_dict)) = args self \<and>
   outputs (self_after (execute c kind self pipeline_dict)) = outputs self \<and>
   kwargs (self_after (execute c kind self pipeline_dict)) =
     (if check_inputs (inputs self) pipeline_dict = None \<and>
         length (primary_from (primary_name kind) (inputs self)) = 1
      then assign_all (bindings (primary_name kind) pipeline_dict (inputs self)) (kwargs self)
      else kwargs self)"
proof (cases "check_inputs (inputs self) pipeline_dict")
  case (Some e)
  then show ?thesis
    by (simp add: execute_phases raised_def)
next
  case None
  note kw = collect_kwargs_bindings [OF None, of "primary_name kind" "kwargs self"]
  show ?thesis
    by (simp add: execute_phases None kw raised_def split: prod.splits sum.splits)
qed

text \<open>
  The claim as stated fails: the step built with no descriptor has empty
  \<^verbatim>\<open>kwargs\<close> before the execution of scenario B and holds the item id afterwards.
\<close>

theorem kwargs_persist_counterexample:
  "kwargs (self_after (execute (answer_with (PObj 7)) ItemsGetStep (init ItemsGetStep None)
                         item_dict))
     = [(''item_id'', PStr ''abc'')] \<and>
   kwargs (init ItemsGetStep None) = [] \<and>
   kwargs (self_after (execute (answer_with (PObj 7)) ItemsGetStep (init ItemsGetStep None)
                         item_dict))
     \<noteq> kwargs (init ItemsGetStep None)"
  by (simp add: execute_def ItemsGetStep_execute_def init_def ItemsGetStep_init_def
        item_dict_def dict_has_def primary_from_def dict_get_def dict_set_def answer_with_def)

theorem step_fields_after_execute_witness:
  "inputs (self_after (execute (\<lambda>cl. Inr (PObj 7)) ItemsGetStep (init ItemsGetStep None)
                         item_dict)) = inputs (init ItemsGetStep None) \<and>
   outputs (self_after (execute (\<lambda>cl. Inr (PObj 7)) ItemsGetStep (init ItemsGetStep None)
                         item_dict)) = outputs (init ItemsGetStep None) \<and>
   args (self_after (execute (\<lambda>cl. Inr (PObj 7)) ItemsGetStep (init ItemsGetStep None)
                         item_dict)) = [] \<and>
   kwargs (self_after (execute (\<lambda>cl. Inr (PObj 7)) ItemsGetStep (init ItemsGetStep None)
                         item_dict)) = [(''item_id'', PStr ''abc'')]"
  using step_fields_after_execute [of "\<lambda>cl. Inr (PObj 7)" ItemsGetStep "init ItemsGetStep None"
          item_dict]
  by (simp add: init_def ItemsGetStep_init_def item_dict_def dict_has_def primary_from_def
        primary_name_def bindings_def dict_get_def assign_all_def dict_set_def)

subsection \<open>What the collaborators are called with\<close>

lemma list_annotations_calls:
  "list_all (\<lambda>cl. operation_of cl = Annotations_list \<and> kwargs_of cl = []) cs \<Longrightarrow>
     list_all (\<lambda>cl. operation_of cl = Annotations_list \<and> kwargs_of cl = [])
       (snd (list_annotations c its acc cs))"
  by (induction its arbitrary: acc cs) (auto split: sum.splits)

text \<open>
  Whatever the step and the context, every call that \<^verbatim>\<open>AnnotationsGetBatchStep\<close>
  makes is \<^verbatim>\<open>annotations.list()\<close> with no keyword argument.
\<close>

lemma annotations_calls_without_kwargs:
  "list_all (\<lambda>cl. operation_of cl = Annotations_list \<and> kwargs_of cl = [])
     (calls (execute c AnnotationsGetBatchStep self d))"
proof -
  have "list_all (\<lambda>cl. operation_of cl = Annotations_list \<and> kwargs_of cl = [])
          (snd (list_annotations c its [] []))" for its
    by (rule list_annotations_calls) simp
  then have inv: "list_all (\<lambda>cl. operation_of cl = Annotations_list \<and> kwargs_of cl = [])
          (snd (invoke c AnnotationsGetBatchStep obj kw))" for obj kw
  proof (cases "iterate obj")
    case (Inl e)
    then show ?thesis by (simp add: invoke_def)
  next
    case (Inr its)
    assume "\<And>its. list_all (\<lambda>cl. operation_of cl = Annotations_list \<and> kwargs_of cl = [])
          (snd (list_annotations c its [] []))"
    from this [of its] Inr show ?thesis
      by (cases "list_annotations c its [] []") (auto simp: invoke_def split: sum.splits)
  qed
  show ?thesis
  proof (cases "check_inputs (inputs self) d")
    case (Some e)
    then show ?thesis by (simp add: execute_phases raised_def)
  next
    case None
    obtain r kw where kw: "collect_kwargs ''items'' d (inputs self) (kwargs self) = (r, kw)"
      by (cases "collect_kwargs ''items'' d (inputs self) (kwargs self)")
    obtain res cs where
      cs: "invoke c AnnotationsGetBatchStep (dict_get d (primary_from ''items'' (inputs self) ! 0)) kw
             = (res, cs)"
      by (cases "invoke c AnnotationsGetBatchStep
                   (dict_get d (primary_from ''items'' (inputs self) ! 0)) kw")
    from inv [of "dict_get d (primary_from ''items'' (inputs self) ! 0)" kw] cs
    have "list_all (\<lambda>cl. operation_of cl = Annotations_list \<and> kwargs_of cl = []) cs"
      by simp
    with None kw cs show ?thesis
      by (simp add: execute_phases primary_name_def raised_def
            split: option.splits prod.splits sum.splits)
  qed
qed

text \<open>
  \<^verbatim>\<open>ItemsGetStep\<close>, once both checks pass, makes the one call
  \<^verbatim>\<open>dataset.items.get(**kwargs)\<close> with the collected keyword arguments.
\<close>

lemma items_get_receives_kwargs:
  assumes "check_inputs (inputs self) d = None"
      and "primary_from ''dataset'' (inputs self) = [k]"
  shows "calls (execute c ItemsGetStep self d) =
           [Call Items_get (dict_get d k)
              (assign_all (bindings ''dataset'' d (inputs self)) (kwargs self))]"
  using assms collect_kwargs_bindings [OF assms(1), of "''dataset''" "kwargs self"]
  by (simp add: execute_phases primary_name_def invoke_def raised_def
        split: prod.splits sum.splits)

text \<open>
  Claim C7, at an input where it fails. The step declares the input
  \<^verbatim>\<open>'filters'\<close>; the execution collects it into \<^verbatim>\<open>kwargs\<close>, and the call made
  on the item carries no keyword argument.
\<close>

theorem annotations_call_drops_kwargs:
  "outcome (execute (answer_with (PList [])) AnnotationsGetBatchStep filtered_step
              filtered_dict) = None \<and>
   kwargs (self_after (execute (answer_with (PList [])) AnnotationsGetBatchStep filtered_step
                         filtered_dict))
     = [(''filters'', PObj 5)] \<and>
   calls (execute (answer_with (PList [])) AnnotationsGetBatchStep filtered_step filtered_dict)
     = [Call Annotations_list (PObj 1) []]"
  by (simp add: execute_def AnnotationsGetBatchStep_execute_def filtered_step_def
        filtered_dict_def init_def AnnotationsGetBatchStep_init_def dict_has_def
        primary_from_def dict_get_def dict_set_def answer_with_def)

subsection \<open>The arguments reported by \<^verbatim>\<open>get_arguments\<close>\<close>

text \<open>
  For \<^verbatim>\<open>ItemsGetStep\<close> the reported arguments are the defaults of the operation that
  \<^verbatim>\<open>execute\<close> calls.
\<close>

lemma items_get_arguments:
  "get_arguments ItemsGetStep repos = f_callargs (signature_of repos Items_get)"
  by (simp add: get_arguments_def ItemsGetStep_get_arguments_def signature_of_def)

text \<open>
  Claim C9, at an input where it fails. \<^verbatim>\<open>AnnotationsGetBatchStep.execute\<close> calls
  \<^verbatim>\<open>annotations.list\<close>, and \<^verbatim>\<open>get_arguments\<close> reports the defaults of
  \<^verbatim>\<open>Annotations.get\<close>: with the example signatures it returns the empty mapping,
  and the defaults of the operation that is called are three.
\<close>

theorem annotations_get_arguments_other_operation:
  "map operation_of
     (calls (execute (answer_with (PList [])) AnnotationsGetBatchStep
               (init AnnotationsGetBatchStep None) [(''items'', PList [PObj 1])]))
     = [Annotations_list] \<and>
   get_arguments AnnotationsGetBatchStep example_repositories = [] \<and>
   f_callargs (signature_of example_repositories Annotations_list)
     = [(''filters'', PNone), (''page_offset'', PNone), (''page_size'', PNone)]"
  by (simp add: execute_def AnnotationsGetBatchStep_execute_def init_def
        AnnotationsGetBatchStep_init_def dict_has_def primary_from_def dict_get_def
        dict_set_def answer_with_def get_arguments_def
        AnnotationsGetBatchStep_get_arguments_def example_repositories_def f_callargs_def
        signature_of_def)

subsection \<open>Running a step again\<close>









end
